theory Spec2Isabelle
  imports Complex_Main "HOL-Library.Log_Nat"
begin

section \<open>Python's numbers\<close>

text \<open>
  The application computes with two kinds of numbers. Amounts are \<^verbatim>\<open>Decimal\<close>s: finite
  decimal fractions, modelled as the rationals they denote. Every arithmetic operation on
  them rounds its exact result to the 28 significant digits of Python's default decimal
  context (round half to even). The serializers and the dashboard convert amounts with
  \<^verbatim>\<open>float()\<close> to IEEE 754 binary64 numbers, modelled as the rationals that are
  representable with a 53 bit significand; every conversion and every float operation
  rounds its exact result to the nearest representable number, ties to even.
  Both roundings are instances of one function \<open>round_sig\<close>: base, precision and the
  exponent of the smallest representable digit. Overflow to infinity is not modelled; it
  needs magnitudes of \<open>2 ^ 1024\<close> (or \<open>10 ^ 999999\<close>), which amounts of at most twelve
  digits and differences of calendar dates never reach.
\<close>

definition round_half_even :: "rat \<Rightarrow> int" where
  "round_half_even x =
     (let f = \<lfloor>x\<rfloor>; d = x - of_int f
      in if d < 1/2 then f else if 1/2 < d then f + 1 else if even f then f else f + 1)"

text \<open>\<open>ilog b x\<close> is the exponent of the leading base-\<open>b\<close> digit of a positive \<open>x\<close>.\<close>

definition ilog :: "nat \<Rightarrow> rat \<Rightarrow> int" where
  "ilog b x =
     (case quotient_of x of (n, d) \<Rightarrow>
        let k = int (floorlog b (nat n)) - int (floorlog b (nat d))
        in if of_nat b powi k \<le> x then k else k - 1)"

definition round_sig :: "nat \<Rightarrow> nat \<Rightarrow> int \<Rightarrow> rat \<Rightarrow> rat" where
  "round_sig b p emin x =
     (if x = 0 then 0
      else let e = max (ilog b \<bar>x\<bar> - int p + 1) emin; s = of_nat b powi e
           in of_int (round_half_even (x / s)) * s)"

text \<open>The default decimal context: \<^verbatim>\<open>prec=28, rounding=ROUND_HALF_EVEN, Emin=-999999\<close>.\<close>

definition decimal_context :: "rat \<Rightarrow> rat" where
  "decimal_context x = round_sig 10 28 (- 1000026) x"

definition decimal_add :: "rat \<Rightarrow> rat \<Rightarrow> rat" where
  "decimal_add x y = decimal_context (x + y)"

definition decimal_sub :: "rat \<Rightarrow> rat \<Rightarrow> rat" where
  "decimal_sub x y = decimal_context (x - y)"

definition decimal_mul :: "rat \<Rightarrow> rat \<Rightarrow> rat" where
  "decimal_mul x y = decimal_context (x * y)"

definition decimal_div :: "rat \<Rightarrow> rat \<Rightarrow> rat" where
  "decimal_div x y = decimal_context (x / y)"

text \<open>\<^verbatim>\<open>float(d)\<close> of a decimal, and the float operations the code uses.\<close>

definition py_float :: "rat \<Rightarrow> rat" where
  "py_float x = round_sig 2 53 (- 1074) x"

definition int_truediv :: "int \<Rightarrow> int \<Rightarrow> rat" where
  "int_truediv a b = py_float (of_int a / of_int b)"

definition float_mul :: "rat \<Rightarrow> rat \<Rightarrow> rat" where
  "float_mul x y = py_float (x * y)"

text \<open>
  A stored amount: \<^verbatim>\<open>DecimalField(max_digits=12, decimal_places=2)\<close>, a whole number of
  cents below \<open>10 ^ 12\<close> cents.
\<close>

definition is_money :: "rat \<Rightarrow> bool" where
  "is_money x = (of_int \<lfloor>x * 100\<rfloor> = x * 100 \<and> \<bar>x\<bar> < 10 ^ 10)"

section \<open>Calendar dates\<close>

text \<open>
  \<^verbatim>\<open>datetime.date\<close>: a proleptic Gregorian date of the years 1 to 9999. The day number
  follows the standard library (\<^verbatim>\<open>toordinal\<close>, with 0001-01-01 as day 1), so that the
  difference of two dates in days is the difference of their day numbers.
\<close>

record date =
  year :: nat
  month :: nat
  day :: nat

definition is_leap :: "nat \<Rightarrow> bool" where
  "is_leap y = (y mod 4 = 0 \<and> (y mod 100 \<noteq> 0 \<or> y mod 400 = 0))"

definition days_in_month :: "nat \<Rightarrow> nat \<Rightarrow> nat" where
  "days_in_month y m =
     (if m = 2 \<and> is_leap y then 29
      else [31, 28, 31, 30, 31, 30, 31, 31, 30, 31, 30, 31] ! (m - 1))"

definition valid_date :: "date \<Rightarrow> bool" where
  "valid_date d =
     (1 \<le> year d \<and> year d \<le> 9999 \<and> 1 \<le> month d \<and> month d \<le> 12 \<and>
      1 \<le> day d \<and> day d \<le> days_in_month (year d) (month d))"

definition days_before_year :: "nat \<Rightarrow> int" where
  "days_before_year y = (let z = int y - 1 in z * 365 + z div 4 - z div 100 + z div 400)"

definition days_before_month :: "nat \<Rightarrow> nat \<Rightarrow> int" where
  "days_before_month y m =
     [0, 31, 59, 90, 120, 151, 181, 212, 243, 273, 304, 334] ! (m - 1)
       + (if 2 < m \<and> is_leap y then 1 else 0)"

definition toordinal :: "date \<Rightarrow> int" where
  "toordinal d = days_before_year (year d) + days_before_month (year d) (month d) + int (day d)"

text \<open>\<^verbatim>\<open>(a - b).days\<close>\<close>

definition days_between :: "date \<Rightarrow> date \<Rightarrow> int" where
  "days_between a b = toordinal a - toordinal b"

text \<open>
  \<^verbatim>\<open>d - timedelta(days=1)\<close>: the day before, or \<^verbatim>\<open>OverflowError\<close> (here \<open>None\<close>) before
  0001-01-01.
\<close>

definition minus_one_day :: "date \<Rightarrow> date option" where
  "minus_one_day d =
     (if 1 < day d then Some (d\<lparr>day := day d - 1\<rparr>)
      else if 1 < month d
        then Some \<lparr>year = year d, month = month d - 1, day = days_in_month (year d) (month d - 1)\<rparr>
      else if 1 < year d then Some \<lparr>year = year d - 1, month = 12, day = 31\<rparr>
      else None)"

text \<open>\<^verbatim>\<open>d.replace(day=1)\<close>\<close>

definition replace_day_1 :: "date \<Rightarrow> date" where
  "replace_day_1 d = d\<lparr>day := 1\<rparr>"

fun str_of_nat :: "nat \<Rightarrow> string" where
  "str_of_nat n =
     (if n < 10 then [''0123456789'' ! n]
      else str_of_nat (n div 10) @ [''0123456789'' ! (n mod 10)])"

declare str_of_nat.simps [simp del]

definition month_abbr :: "nat \<Rightarrow> string" where
  "month_abbr m =
     [''Jan'', ''Feb'', ''Mar'', ''Apr'', ''May'', ''Jun'',
      ''Jul'', ''Aug'', ''Sep'', ''Oct'', ''Nov'', ''Dec''] ! (m - 1)"

definition month_name :: "nat \<Rightarrow> string" where
  "month_name m =
     [''January'', ''February'', ''March'', ''April'', ''May'', ''June'', ''July'',
      ''August'', ''September'', ''October'', ''November'', ''December''] ! (m - 1)"

text \<open>\<^verbatim>\<open>strftime('%b %Y')\<close> and \<^verbatim>\<open>strftime('%B %Y')\<close>, in the C locale.\<close>

definition strftime_b_Y :: "date \<Rightarrow> string" where
  "strftime_b_Y d = month_abbr (month d) @ '' '' @ str_of_nat (year d)"

definition strftime_B_Y :: "date \<Rightarrow> string" where
  "strftime_B_Y d = month_name (month d) @ '' '' @ str_of_nat (year d)"

section \<open>The stored data\<close>

text \<open>
  The three tables of \<^verbatim>\<open>core/models.py\<close>, with the columns the views read. A user is the
  key of the owning \<^verbatim>\<open>User\<close> row. Of a goal's \<^verbatim>\<open>created_at\<close> timestamp only its date is
  used.
\<close>

record income =
  income_id :: nat
  income_user :: nat
  income_source :: string
  income_amount :: rat
  income_date :: date

record expense =
  expense_id :: nat
  expense_user :: nat
  expense_title :: string
  expense_category :: string
  expense_amount :: rat
  expense_date :: date

record savings_goal =
  goal_id :: nat
  goal_user :: nat
  goal_name :: string
  target_amount :: rat
  current_amount :: rat
  deadline :: date
  created_at :: date

record store =
  incomes :: "income list"
  expenses :: "expense list"
  savings_goals :: "savings_goal list"

definition CATEGORY_CHOICES :: "(string \<times> string) list" where
  "CATEGORY_CHOICES =
     [(''food'', ''Food & Dining''),
      (''rent'', ''Rent & Housing''),
      (''utilities'', ''Utilities''),
      (''travel'', ''Travel & Transport''),
      (''entertainment'', ''Entertainment''),
      (''health'', ''Health & Fitness''),
      (''shopping'', ''Shopping''),
      (''education'', ''Education''),
      (''savings'', ''Savings Transfer''),
      (''other'', ''Other'')]"

section \<open>Derived attributes of a savings goal\<close>

text \<open>\<^verbatim>\<open>SavingsGoal.progress_percentage\<close>\<close>

definition progress_percentage :: "savings_goal \<Rightarrow> rat" where
  "progress_percentage g =
     (if target_amount g \<le> 0 then 0
      else min (py_float (decimal_mul (decimal_div (current_amount g) (target_amount g)) 100)) 100)"

text \<open>\<^verbatim>\<open>SavingsGoalSerializer.get_days_remaining\<close>\<close>

definition get_days_remaining :: "date \<Rightarrow> savings_goal \<Rightarrow> int" where
  "get_days_remaining today g = days_between (deadline g) today"

text \<open>
  \<^verbatim>\<open>SavingsGoalSerializer.get_is_on_track\<close>; \<open>expected_amount\<close> is the local variable of
  its second branch.
\<close>

definition expected_amount :: "date \<Rightarrow> savings_goal \<Rightarrow> rat" where
  "expected_amount today g =
     (let total_days = days_between (deadline g) (created_at g);
          elapsed_days = days_between today (created_at g);
          expected_progress = min (int_truediv elapsed_days total_days) 1
      in float_mul (py_float (target_amount g)) expected_progress)"

definition get_is_on_track :: "date \<Rightarrow> savings_goal \<Rightarrow> bool" where
  "get_is_on_track today g =
     (let total_days = days_between (deadline g) (created_at g)
      in if total_days \<le> 0 then py_float (current_amount g) \<ge> py_float (target_amount g)
         else py_float (current_amount g) \<ge> expected_amount today g)"

record goal_view =
  view_id :: nat
  view_name :: string
  view_target_amount :: rat
  view_current_amount :: rat
  view_deadline :: date
  view_progress_percentage :: rat
  view_is_on_track :: bool
  view_days_remaining :: int

text \<open>\<^verbatim>\<open>SavingsGoalSerializer(goal).data\<close>\<close>

definition serialize_goal :: "date \<Rightarrow> savings_goal \<Rightarrow> goal_view" where
  "serialize_goal today g =
     \<lparr>view_id = goal_id g, view_name = goal_name g,
      view_target_amount = target_amount g, view_current_amount = current_amount g,
      view_deadline = deadline g, view_progress_percentage = progress_percentage g,
      view_is_on_track = get_is_on_track today g,
      view_days_remaining = get_days_remaining today g\<rparr>"

section \<open>Queries\<close>

text \<open>\<^verbatim>\<open>get_queryset\<close> of the three view sets: the rows of the requesting user.\<close>

definition income_queryset :: "store \<Rightarrow> nat \<Rightarrow> income list" where
  "income_queryset s u = filter (\<lambda>r. income_user r = u) (incomes s)"

definition expense_queryset :: "store \<Rightarrow> nat \<Rightarrow> expense list" where
  "expense_queryset s u = filter (\<lambda>r. expense_user r = u) (expenses s)"

definition goal_queryset :: "store \<Rightarrow> nat \<Rightarrow> savings_goal list" where
  "goal_queryset s u = filter (\<lambda>g. goal_user g = u) (savings_goals s)"

text \<open>
  \<^verbatim>\<open>.aggregate(total=Sum('amount'))['total']\<close> is \<^verbatim>\<open>None\<close> on no rows, and
  \<^verbatim>\<open>x or Decimal('0.00')\<close> replaces \<^verbatim>\<open>None\<close> and a zero sum alike.
\<close>

definition aggregate_sum :: "rat list \<Rightarrow> rat option" where
  "aggregate_sum xs = (if xs = [] then None else Some (sum_list xs))"

definition or_zero :: "rat option \<Rightarrow> rat" where
  "or_zero t = (case t of None \<Rightarrow> 0 | Some v \<Rightarrow> if v = 0 then 0 else v)"

definition in_month :: "nat \<Rightarrow> nat \<Rightarrow> date \<Rightarrow> bool" where
  "in_month y m d = (year d = y \<and> month d = m)"

text \<open>
  \<^verbatim>\<open>Income.objects.filter(user=user, date__year=y, date__month=m).aggregate(...) or 0\<close>,
  and the same for expenses.
\<close>

definition income_total_in_month :: "store \<Rightarrow> nat \<Rightarrow> nat \<Rightarrow> nat \<Rightarrow> rat" where
  "income_total_in_month s u y m =
     or_zero (aggregate_sum (map income_amount
       (filter (\<lambda>r. income_user r = u \<and> in_month y m (income_date r)) (incomes s))))"

definition expense_total_in_month :: "store \<Rightarrow> nat \<Rightarrow> nat \<Rightarrow> nat \<Rightarrow> rat" where
  "expense_total_in_month s u y m =
     or_zero (aggregate_sum (map expense_amount
       (filter (\<lambda>r. expense_user r = u \<and> in_month y m (expense_date r)) (expenses s))))"

text \<open>
  \<^verbatim>\<open>.values('category').annotate(total=Sum('amount')).order_by('-total')\<close>: one row per
  category that occurs, with the sum of the amounts of its rows, largest total first. The
  order of equal totals is the database's; the model keeps the order of first occurrence.
\<close>

definition group_total :: "expense list \<Rightarrow> string \<Rightarrow> rat" where
  "group_total rows c =
     sum_list (map expense_amount (filter (\<lambda>r. expense_category r = c) rows))"

definition category_totals :: "expense list \<Rightarrow> (string \<times> rat) list" where
  "category_totals rows =
     sort_key (\<lambda>(c, t). - t)
       (map (\<lambda>c. (c, group_total rows c)) (remdups (map expense_category rows)))"

text \<open>\<^verbatim>\<open>dict(Expense.CATEGORY_CHOICES).get(category, category)\<close>\<close>

definition category_label :: "string \<Rightarrow> string" where
  "category_label c = (case map_of CATEGORY_CHOICES c of Some l \<Rightarrow> l | None \<Rightarrow> c)"

section \<open>Views\<close>

text \<open>
  Every view takes the store, the requesting user and, where the code calls
  \<^verbatim>\<open>date.today()\<close>, the date of the request.
\<close>

text \<open>\<^verbatim>\<open>IncomeViewSet.monthly_total\<close> and \<^verbatim>\<open>ExpenseViewSet.monthly_total\<close>\<close>

definition income_monthly_total :: "store \<Rightarrow> nat \<Rightarrow> date \<Rightarrow> string \<times> rat" where
  "income_monthly_total s u today =
     (strftime_B_Y today,
      or_zero (aggregate_sum (map income_amount
        (filter (\<lambda>r. in_month (year today) (month today) (income_date r)) (income_queryset s u)))))"

definition expense_monthly_total :: "store \<Rightarrow> nat \<Rightarrow> date \<Rightarrow> string \<times> rat" where
  "expense_monthly_total s u today =
     (strftime_B_Y today,
      or_zero (aggregate_sum (map expense_amount
        (filter (\<lambda>r. in_month (year today) (month today) (expense_date r)) (expense_queryset s u)))))"

record category_item =
  item_category :: string
  item_label :: string
  item_total :: rat

text \<open>\<^verbatim>\<open>ExpenseViewSet.by_category\<close>\<close>

definition by_category :: "store \<Rightarrow> nat \<Rightarrow> category_item list" where
  "by_category s u =
     map (\<lambda>(c, t). \<lparr>item_category = c, item_label = category_label c, item_total = t\<rparr>)
         (category_totals (expense_queryset s u))"

text \<open>The goal list of \<^verbatim>\<open>SavingsGoalViewSet\<close>\<close>

definition goal_list :: "store \<Rightarrow> nat \<Rightarrow> date \<Rightarrow> goal_view list" where
  "goal_list s u today = map (serialize_goal today) (goal_queryset s u)"

subsection \<open>Adding funds\<close>

text \<open>
  The request body is JSON or a form; the value of its \<^verbatim>\<open>amount\<close> key is modelled for
  the absent key, \<^verbatim>\<open>null\<close>, booleans, integers and strings (in ASCII). \<open>py_str\<close> is
  \<^verbatim>\<open>str()\<close> and \<open>falsy\<close> is \<^verbatim>\<open>not amount\<close>.
\<close>

datatype json = JNull | JBool bool | JInt int | JString string

definition falsy :: "json option \<Rightarrow> bool" where
  "falsy a =
     (case a of None \<Rightarrow> True | Some JNull \<Rightarrow> True | Some (JBool b) \<Rightarrow> \<not> b
      | Some (JInt i) \<Rightarrow> i = 0 | Some (JString s) \<Rightarrow> s = [])"

definition py_str :: "json \<Rightarrow> string" where
  "py_str j =
     (case j of JNull \<Rightarrow> ''None'' | JBool b \<Rightarrow> (if b then ''True'' else ''False'')
      | JInt i \<Rightarrow> (if i < 0 then ''-'' @ str_of_nat (nat (- i)) else str_of_nat (nat i))
      | JString s \<Rightarrow> s)"

text \<open>
  A \<^verbatim>\<open>Decimal\<close> as the constructor returns it: a finite number, an infinity with its sign
  (\<open>True\<close> for negative), or a NaN.
\<close>

datatype decimal = Finite rat | Infinity bool | NaN

definition is_space :: "char \<Rightarrow> bool" where
  "is_space c = (c \<in> set [CHR '' '', CHR 0x09, CHR 0x0A, CHR 0x0B, CHR 0x0C, CHR 0x0D,
                            CHR 0x1C, CHR 0x1D, CHR 0x1E, CHR 0x1F])"

definition strip :: "string \<Rightarrow> string" where
  "strip s = rev (dropWhile is_space (rev (dropWhile is_space s)))"

definition is_digit :: "char \<Rightarrow> bool" where
  "is_digit c = (c \<in> set ''0123456789'')"

definition digit_value :: "char \<Rightarrow> nat" where
  "digit_value c = of_char c - 48"

definition nat_of_digits :: "string \<Rightarrow> nat" where
  "nat_of_digits ds = foldl (\<lambda>n c. 10 * n + digit_value c) 0 ds"

definition lower :: "string \<Rightarrow> string" where
  "lower s = map (\<lambda>c. if of_char c \<in> {65 .. 90 :: nat} then char_of (of_char c + 32 :: nat) else c) s"

text \<open>An optional sign: \<open>True\<close> for \<^verbatim>\<open>-\<close>.\<close>

definition take_sign :: "string \<Rightarrow> bool \<times> string" where
  "take_sign s =
     (case s of c # r \<Rightarrow> (if c = CHR ''-'' then (True, r) else if c = CHR ''+'' then (False, r)
                           else (False, s))
      | [] \<Rightarrow> (False, s))"

text \<open>The exponent part after \<^verbatim>\<open>E\<close>: an optional sign and at least one digit.\<close>

definition parse_exponent :: "string \<Rightarrow> int option" where
  "parse_exponent s =
     (case take_sign s of (neg, ds) \<Rightarrow>
        if ds \<noteq> [] \<and> list_all is_digit ds
        then Some (if neg then - int (nat_of_digits ds) else int (nat_of_digits ds))
        else None)"

text \<open>
  The number part: digits with at most one point and at least one digit, then an optional
  exponent.
\<close>

definition parse_number :: "string \<Rightarrow> rat option" where
  "parse_number s =
     (let mant = takeWhile (\<lambda>c. c \<noteq> CHR ''e'') s;
          rest = dropWhile (\<lambda>c. c \<noteq> CHR ''e'') s;
          ip = takeWhile (\<lambda>c. c \<noteq> CHR ''.'') mant;
          fp = drop 1 (dropWhile (\<lambda>c. c \<noteq> CHR ''.'') mant)
      in if list_all is_digit ip \<and> list_all is_digit fp \<and> ip @ fp \<noteq> []
         then (case (if rest = [] then Some 0 else parse_exponent (drop 1 rest)) of
                 None \<Rightarrow> None
               | Some e \<Rightarrow>
                   Some (of_nat (nat_of_digits (ip @ fp)) * 10 powi (e - int (length fp))))
         else None)"

text \<open>
  \<^verbatim>\<open>Decimal(s)\<close> of a string: surrounding whitespace and underscores are dropped, letters
  are read in either case; \<open>None\<close> is \<^verbatim>\<open>InvalidOperation\<close>.
\<close>

definition Decimal :: "string \<Rightarrow> decimal option" where
  "Decimal s =
     (case take_sign (lower (filter (\<lambda>c. c \<noteq> CHR ''_'') (strip s))) of (neg, r) \<Rightarrow>
        if r = ''inf'' \<or> r = ''infinity'' then Some (Infinity neg)
        else if (take 3 r = ''nan'' \<and> list_all is_digit (drop 3 r))
              \<or> (take 4 r = ''snan'' \<and> list_all is_digit (drop 4 r)) then Some NaN
        else (case parse_number r of None \<Rightarrow> None
              | Some v \<Rightarrow> Some (Finite (if neg then - v else v))))"

text \<open>\<^verbatim>\<open>d <= 0\<close>; the comparison of a NaN raises \<^verbatim>\<open>InvalidOperation\<close> (\<open>None\<close>).\<close>

definition decimal_le_zero :: "decimal \<Rightarrow> bool option" where
  "decimal_le_zero d =
     (case d of Finite v \<Rightarrow> Some (v \<le> 0) | Infinity neg \<Rightarrow> Some neg | NaN \<Rightarrow> None)"

text \<open>
  The \<^verbatim>\<open>try\<close> block of \<^verbatim>\<open>add_funds\<close>: the amount it leaves in \<^verbatim>\<open>amount\<close>, or \<open>None\<close> when
  any exception is caught.
\<close>

definition positive_amount :: "json \<Rightarrow> decimal option" where
  "positive_amount j =
     (case Decimal (py_str j) of None \<Rightarrow> None
      | Some d \<Rightarrow> (case decimal_le_zero d of None \<Rightarrow> None
                    | Some le \<Rightarrow> if le then None else Some d))"

text \<open>\<^verbatim>\<open>goal.current_amount += amount\<close>\<close>

definition add_amount :: "rat \<Rightarrow> decimal \<Rightarrow> decimal" where
  "add_amount c a =
     (case a of Finite v \<Rightarrow> Finite (decimal_add c v) | Infinity neg \<Rightarrow> Infinity neg | NaN \<Rightarrow> NaN)"

text \<open>
  The answers of \<^verbatim>\<open>add_funds\<close>. \<open>Save_not_finite\<close> stands for the call of \<^verbatim>\<open>goal.save()\<close>
  with a \<^verbatim>\<open>current_amount\<close> that is not a finite number: validation has passed, and what the
  persistence layer does with a value that no \<^verbatim>\<open>DecimalField\<close> column holds is not part of
  this code.
\<close>

datatype response =
  HTTP_400 string | HTTP_404 | HTTP_200 goal_view | Save_not_finite decimal

text \<open>\<^verbatim>\<open>get_object\<close>: the goal with this key among the user's goals.\<close>

definition get_object :: "store \<Rightarrow> nat \<Rightarrow> nat \<Rightarrow> savings_goal option" where
  "get_object s u pk = find (\<lambda>g. goal_id g = pk) (goal_queryset s u)"

text \<open>\<^verbatim>\<open>goal.save()\<close>: the row with the goal's key is overwritten.\<close>

definition save_goal :: "store \<Rightarrow> savings_goal \<Rightarrow> store" where
  "save_goal s g =
     s\<lparr>savings_goals := map (\<lambda>h. if goal_id h = goal_id g then g else h) (savings_goals s)\<rparr>"

text \<open>\<^verbatim>\<open>SavingsGoalViewSet.add_funds\<close>: the answer and the store after the request.\<close>

definition add_funds :: "store \<Rightarrow> nat \<Rightarrow> date \<Rightarrow> nat \<Rightarrow> json option \<Rightarrow> response \<times> store" where
  "add_funds s u today pk amount =
     (case get_object s u pk of None \<Rightarrow> (HTTP_404, s)
      | Some goal \<Rightarrow>
          if falsy amount then (HTTP_400 ''Amount is required.'', s)
          else (case positive_amount (the amount) of
                  None \<Rightarrow> (HTTP_400 ''Amount must be a positive number.'', s)
                | Some a \<Rightarrow>
                    (case add_amount (current_amount goal) a of
                       Finite v \<Rightarrow>
                         (let goal' = goal\<lparr>current_amount := v\<rparr>
                          in (HTTP_200 (serialize_goal today goal'), save_goal s goal'))
                     | d \<Rightarrow> (Save_not_finite d, s))))"

subsection \<open>The dashboard\<close>

record category_slice =
  slice_name :: string
  slice_value :: rat
  slice_category :: string

record month_entry =
  entry_month :: string
  entry_income :: rat
  entry_expenses :: rat

record dashboard =
  total_income :: rat
  total_expenses :: rat
  balance :: rat
  month_income :: rat
  month_expenses :: rat
  expenses_by_category :: "category_slice list"
  monthly_data :: "month_entry list"
  savings_summary :: "goal_view list"

text \<open>
  The inner loop of the monthly chart: \<open>i\<close> times, the first day of the month before.
\<close>

fun months_back :: "nat \<Rightarrow> date \<Rightarrow> date option" where
  "months_back 0 d = Some d"
| "months_back (Suc i) d =
     (case minus_one_day d of None \<Rightarrow> None
      | Some p \<Rightarrow> months_back i (replace_day_1 p))"

text \<open>
  One round of the outer loop: the month \<open>i\<close> months before today's, and the entry of
  that month with its two totals.
\<close>

definition entry_of_month :: "store \<Rightarrow> nat \<Rightarrow> date \<Rightarrow> month_entry" where
  "entry_of_month s u month_date =
     \<lparr>entry_month = strftime_b_Y month_date,
      entry_income = py_float (income_total_in_month s u (year month_date) (month month_date)),
      entry_expenses =
        py_float (expense_total_in_month s u (year month_date) (month month_date))\<rparr>"

definition monthly_entry :: "store \<Rightarrow> nat \<Rightarrow> date \<Rightarrow> nat \<Rightarrow> month_entry option" where
  "monthly_entry s u today i =
     (case months_back i (replace_day_1 today) of None \<Rightarrow> None
      | Some month_date \<Rightarrow> Some (entry_of_month s u month_date))"

text \<open>\<^verbatim>\<open>for i in range(5, -1, -1)\<close>; an exception in any round ends the request.\<close>

definition monthly_series :: "store \<Rightarrow> nat \<Rightarrow> date \<Rightarrow> month_entry list option" where
  "monthly_series s u today = those (map (monthly_entry s u today) [5, 4, 3, 2, 1, 0])"

text \<open>The decimal totals of \<^verbatim>\<open>DashboardView.get\<close>, before their conversion.\<close>

definition all_time_income :: "store \<Rightarrow> nat \<Rightarrow> rat" where
  "all_time_income s u = or_zero (aggregate_sum (map income_amount (income_queryset s u)))"

definition all_time_expenses :: "store \<Rightarrow> nat \<Rightarrow> rat" where
  "all_time_expenses s u = or_zero (aggregate_sum (map expense_amount (expense_queryset s u)))"

text \<open>\<^verbatim>\<open>DashboardView.get\<close>; \<open>None\<close> when the request ends in an exception.\<close>

definition dashboard_get :: "store \<Rightarrow> nat \<Rightarrow> date \<Rightarrow> dashboard option" where
  "dashboard_get s u today =
     (case monthly_series s u today of None \<Rightarrow> None
      | Some series \<Rightarrow>
          Some \<lparr>total_income = py_float (all_time_income s u),
                total_expenses = py_float (all_time_expenses s u),
                balance = py_float (decimal_sub (all_time_income s u) (all_time_expenses s u)),
                month_income = py_float (income_total_in_month s u (year today) (month today)),
                month_expenses = py_float (expense_total_in_month s u (year today) (month today)),
                expenses_by_category =
                  map (\<lambda>(c, t). \<lparr>slice_name = category_label c, slice_value = py_float t,
                                  slice_category = c\<rparr>)
                      (category_totals (expense_queryset s u)),
                monthly_data = series,
                savings_summary = map (serialize_goal today) (goal_queryset s u)\<rparr>)"

section \<open>Notions of the specification\<close>

text \<open>Two stores hold the same rows of a user, in the same order.\<close>

definition agree_on_user :: "nat \<Rightarrow> store \<Rightarrow> store \<Rightarrow> bool" where
  "agree_on_user u s s' =
     (filter (\<lambda>r. income_user r = u) (incomes s) = filter (\<lambda>r. income_user r = u) (incomes s') \<and>
      filter (\<lambda>r. expense_user r = u) (expenses s) = filter (\<lambda>r. expense_user r = u) (expenses s') \<and>
      filter (\<lambda>g. goal_user g = u) (savings_goals s) = filter (\<lambda>g. goal_user g = u) (savings_goals s'))"

text \<open>
  Calendar months counted from year 0: the number of a date's month, and the first day
  of the month with a given number.
\<close>

definition month_index :: "date \<Rightarrow> nat" where
  "month_index d = year d * 12 + (month d - 1)"

definition first_of_month :: "nat \<Rightarrow> date" where
  "first_of_month k = \<lparr>year = k div 12, month = k mod 12 + 1, day = 1\<rparr>"

section \<open>Example data\<close>

text \<open>Two users; the first has an expense in a category outside the fixed table.\<close>

definition example_store :: store where
  "example_store =
     \<lparr>incomes =
        [\<lparr>income_id = 1, income_user = 1, income_source = ''Salary'', income_amount = 3000,
          income_date = \<lparr>year = 2024, month = 1, day = 5\<rparr>\<rparr>,
         \<lparr>income_id = 2, income_user = 1, income_source = ''Freelance'', income_amount = 1801 / 4,
          income_date = \<lparr>year = 2023, month = 12, day = 20\<rparr>\<rparr>,
         \<lparr>income_id = 3, income_user = 2, income_source = ''Salary'', income_amount = 5000,
          income_date = \<lparr>year = 2024, month = 1, day = 3\<rparr>\<rparr>],
      expenses =
        [\<lparr>expense_id = 1, expense_user = 1, expense_title = ''Groceries'',
          expense_category = ''food'', expense_amount = 25 / 2,
          expense_date = \<lparr>year = 2024, month = 1, day = 4\<rparr>\<rparr>,
         \<lparr>expense_id = 2, expense_user = 1, expense_title = ''January rent'',
          expense_category = ''rent'', expense_amount = 800,
          expense_date = \<lparr>year = 2024, month = 1, day = 1\<rparr>\<rparr>,
         \<lparr>expense_id = 3, expense_user = 1, expense_title = ''Lunch'',
          expense_category = ''food'', expense_amount = 15 / 2,
          expense_date = \<lparr>year = 2023, month = 11, day = 30\<rparr>\<rparr>,
         \<lparr>expense_id = 4, expense_user = 1, expense_title = ''Vet'',
          expense_category = ''pets'', expense_amount = 30,
          expense_date = \<lparr>year = 2023, month = 12, day = 24\<rparr>\<rparr>,
         \<lparr>expense_id = 5, expense_user = 2, expense_title = ''Rent'',
          expense_category = ''rent'', expense_amount = 500,
          expense_date = \<lparr>year = 2024, month = 1, day = 1\<rparr>\<rparr>],
      savings_goals =
        [\<lparr>goal_id = 1, goal_user = 1, goal_name = ''Trip'', target_amount = 1000,
          current_amount = 500, deadline = \<lparr>year = 2024, month = 1, day = 11\<rparr>,
          created_at = \<lparr>year = 2024, month = 1, day = 1\<rparr>\<rparr>,
         \<lparr>goal_id = 2, goal_user = 2, goal_name = ''Car'', target_amount = 20000,
          current_amount = 1500, deadline = \<lparr>year = 2025, month = 6, day = 30\<rparr>,
          created_at = \<lparr>year = 2023, month = 6, day = 30\<rparr>\<rparr>]\<rparr>"

text \<open>The same store with other rows for the second user and a third user.\<close>

definition example_store_2 :: store where
  "example_store_2 =
     \<lparr>incomes =
        [\<lparr>income_id = 4, income_user = 3, income_source = ''Pension'', income_amount = 1200,
          income_date = \<lparr>year = 2024, month = 1, day = 2\<rparr>\<rparr>,
         \<lparr>income_id = 1, income_user = 1, income_source = ''Salary'', income_amount = 3000,
          income_date = \<lparr>year = 2024, month = 1, day = 5\<rparr>\<rparr>,
         \<lparr>income_id = 2, income_user = 1, income_source = ''Freelance'', income_amount = 1801 / 4,
          income_date = \<lparr>year = 2023, month = 12, day = 20\<rparr>\<rparr>],
      expenses =
        [\<lparr>expense_id = 1, expense_user = 1, expense_title = ''Groceries'',
          expense_category = ''food'', expense_amount = 25 / 2,
          expense_date = \<lparr>year = 2024, month = 1, day = 4\<rparr>\<rparr>,
         \<lparr>expense_id = 2, expense_user = 1, expense_title = ''January rent'',
          expense_category = ''rent'', expense_amount = 800,
          expense_date = \<lparr>year = 2024, month = 1, day = 1\<rparr>\<rparr>,
         \<lparr>expense_id = 5, expense_user = 2, expense_title = ''Rent'',
          expense_category = ''rent'', expense_amount = 99999,
          expense_date = \<lparr>year = 2024, month = 1, day = 1\<rparr>\<rparr>,
         \<lparr>expense_id = 3, expense_user = 1, expense_title = ''Lunch'',
          expense_category = ''food'', expense_amount = 15 / 2,
          expense_date = \<lparr>year = 2023, month = 11, day = 30\<rparr>\<rparr>,
         \<lparr>expense_id = 4, expense_user = 1, expense_title = ''Vet'',
          expense_category = ''pets'', expense_amount = 30,
          expense_date = \<lparr>year = 2023, month = 12, day = 24\<rparr>\<rparr>],
      savings_goals =
        [\<lparr>goal_id = 1, goal_user = 1, goal_name = ''Trip'', target_amount = 1000,
          current_amount = 500, deadline = \<lparr>year = 2024, month = 1, day = 11\<rparr>,
          created_at = \<lparr>year = 2024, month = 1, day = 1\<rparr>\<rparr>]\<rparr>"

section \<open>Rounding\<close>

text \<open>
  Rounding to the nearest integer lies within a half of its argument, is monotone, odd and
  keeps integers.
\<close>

lemma round_half_even_unfold:
  fixes x :: rat
  defines "f \<equiv> \<lfloor>x\<rfloor>"
  shows "round_half_even x =
           (if x - of_int f < 1/2 then f else if 1/2 < x - of_int f then f + 1
            else if even f then f else f + 1)"
    and "of_int f \<le> x" and "x < of_int f + 1"
  unfolding f_def by (simp_all add: round_half_even_def Let_def) linarith

lemma round_half_even_cases:
  "round_half_even x = \<lfloor>x\<rfloor> \<or> round_half_even x = \<lfloor>x\<rfloor> + 1"
  by (simp add: round_half_even_def Let_def)

lemma round_half_even_lower: "x - 1/2 \<le> of_int (round_half_even x)"
proof -
  define f where "f = \<lfloor>x\<rfloor>"
  note u = round_half_even_unfold [of x, folded f_def]
  show ?thesis
  proof (cases "x - of_int f < 1/2")
    case True
    then show ?thesis using u by simp
  next
    case False
    then have "of_int (round_half_even x) \<ge> (of_int f :: rat)"
      using u(1) by (simp split: if_splits)
    moreover have "round_half_even x = f + 1 \<or> x - of_int f = 1/2"
      using False u(1) by (auto split: if_splits)
    ultimately show ?thesis using u(3) by auto
  qed
qed

lemma round_half_even_upper: "of_int (round_half_even x) \<le> x + 1/2"
proof -
  define f where "f = \<lfloor>x\<rfloor>"
  note u = round_half_even_unfold [of x, folded f_def]
  show ?thesis
  proof (cases "x - of_int f < 1/2")
    case True
    then show ?thesis using u by simp
  next
    case False
    have "round_half_even x \<le> f + 1"
      using u(1) by (simp split: if_splits)
    then have "(of_int (round_half_even x) :: rat) \<le> of_int f + 1"
      by (metis of_int_le_iff of_int_add of_int_1)
    then show ?thesis using False by linarith
  qed
qed

lemma round_half_even_of_int [simp]: "round_half_even (of_int n) = n"
  by (simp add: round_half_even_def)

lemma round_half_even_mono:
  assumes "x \<le> y" shows "round_half_even x \<le> round_half_even y"
proof (cases "\<lfloor>x\<rfloor> = \<lfloor>y\<rfloor>")
  case True
  define f where "f = \<lfloor>x\<rfloor>"
  note ux = round_half_even_unfold(1) [of x, folded f_def]
  have fy: "\<lfloor>y\<rfloor> = f" using True f_def by simp
  note uy = round_half_even_unfold(1) [of y, unfolded fy]
  have "x - of_int f \<le> y - of_int f" using assms by simp
  then show ?thesis
    unfolding ux uy by (simp split: if_splits)
next
  case False
  with assms have "\<lfloor>x\<rfloor> + 1 \<le> \<lfloor>y\<rfloor>"
    using floor_mono [of x y] by linarith
  moreover have "round_half_even x \<le> \<lfloor>x\<rfloor> + 1"
    using round_half_even_cases [of x] by linarith
  moreover have "\<lfloor>y\<rfloor> \<le> round_half_even y"
    using round_half_even_cases [of y] by linarith
  ultimately show ?thesis by linarith
qed

lemma round_half_even_minus: "round_half_even (- x) = - round_half_even x"
proof (cases "x = of_int \<lfloor>x\<rfloor>")
  case True
  then obtain n where n: "x = of_int n" ..
  then have "- x = of_int (- n)" by simp
  then have "round_half_even (- x) = - n"
    by (simp only: round_half_even_of_int)
  with n show ?thesis by simp
next
  case False
  define f where "f = \<lfloor>x\<rfloor>"
  note u = round_half_even_unfold [of x, folded f_def]
  have "x \<noteq> of_int f" using False f_def by simp
  with u(2) have lt: "of_int f < x" by linarith
  have "\<lfloor>- x\<rfloor> = - f - 1"
    by (rule floor_unique) (use lt u(3) in auto)
  note v = round_half_even_unfold(1) [of "- x", unfolded this]
  show ?thesis
    unfolding u(1) v by (auto split: if_splits)
qed


lemma ilog_bounds:
  assumes b: "2 \<le> b" and x: "0 < x"
  shows "of_nat b powi (ilog b x) \<le> x" and "x < of_nat b powi (ilog b x + 1)"
proof -
  obtain n d where q: "quotient_of x = (n, d)" by (cases "quotient_of x")
  then have d: "0 < d" and xd: "x = of_int n / of_int d"
    using quotient_of_denom_pos quotient_of_div by blast+
  with x have n: "0 < n" by (simp add: zero_less_divide_iff)
  define B :: rat where "B = of_nat b"
  have B: "2 \<le> B" "0 < B" "B \<noteq> 0" using b by (simp_all add: B_def)
  define fn fd where "fn = floorlog b (nat n)" and "fd = floorlog b (nat d)"
  have "b ^ (fn - 1) \<le> nat n" "nat n < b ^ fn" "b ^ (fd - 1) \<le> nat d" "nat d < b ^ fd"
    using floorlog_bounds [of "nat n" b] floorlog_bounds [of "nat d" b] n d b
    by (simp_all add: fn_def fd_def)
  then have "(of_nat (b ^ (fn - 1)) :: rat) \<le> of_nat (nat n)" "(of_nat (nat n) :: rat) < of_nat (b ^ fn)"
    "(of_nat (b ^ (fd - 1)) :: rat) \<le> of_nat (nat d)" "(of_nat (nat d) :: rat) < of_nat (b ^ fd)"
    by (simp_all only: of_nat_le_iff of_nat_less_iff)
  then have nb: "B ^ (fn - 1) \<le> of_int n" "of_int n < B ^ fn"
    and db: "B ^ (fd - 1) \<le> of_int d" "of_int d < B ^ fd"
    using n d by (simp_all add: B_def)
  have fpos: "0 < fn" "0 < fd"
    using n d b by (simp_all add: fn_def fd_def floorlog_def)
  then have suc: "B ^ fn = B * B ^ (fn - 1)" "B ^ fd = B * B ^ (fd - 1)"
    by (simp_all add: power_eq_if)
  define k where "k = int fn - int fd"
  have pk: "B powi k = B ^ fn / B ^ fd"
    unfolding k_def using B by (simp add: power_int_diff)
  have dpos: "(0::rat) < of_int d" using d by simp
  have npos: "(0::rat) < of_int n" using n by simp
  have bpos: "0 < B ^ fd" "0 < B ^ fn" "0 < B ^ (fd - 1)" "0 < B ^ (fn - 1)" using B by simp_all
  have up: "x < B powi (k + 1)"
  proof -
    have "of_int n * B ^ fd < B ^ fn * (B * of_int d)"
    proof -
      have "of_int n * B ^ fd < B ^ fn * B ^ fd"
        using nb(2) bpos by simp
      also have "\<dots> \<le> B ^ fn * (B * of_int d)"
        using db(1) suc(2) bpos B by simp
      finally show ?thesis .
    qed
    then have "of_int n / of_int d < B ^ fn * B / B ^ fd"
      using dpos bpos by (simp add: field_simps)
    then show ?thesis
      using B by (simp add: xd pk power_int_add)
  qed
  have low: "B powi (k - 1) \<le> x"
  proof -
    have "B ^ fn * of_int d \<le> (B * of_int n) * B ^ fd"
    proof -
      have "B ^ fn * of_int d \<le> B ^ fn * B ^ fd"
        using db(2) bpos by simp
      also have "\<dots> \<le> (B * of_int n) * B ^ fd"
        using nb(1) suc(1) bpos B by simp
      finally show ?thesis .
    qed
    then have "B ^ fn / B / B ^ fd \<le> of_int n / of_int d"
      using dpos bpos B by (simp add: field_simps)
    then show ?thesis
      using B by (simp add: xd pk power_int_diff mult.commute)
  qed
  have il: "ilog b x = (if B powi k \<le> x then k else k - 1)"
    by (simp add: ilog_def q Let_def B_def k_def fn_def fd_def)
  show "of_nat b powi (ilog b x) \<le> x"
    using low by (simp add: il B_def [symmetric])
  show "x < of_nat b powi (ilog b x + 1)"
    using up by (simp add: il B_def [symmetric])
qed

lemma power_int_sandwich_unique:
  fixes B :: rat
  assumes B: "1 < B" and "B powi j \<le> x" "x < B powi (k + 1)"
  shows "j \<le> k"
proof (rule ccontr)
  assume "\<not> j \<le> k"
  then have "k + 1 \<le> j" by simp
  then have "B powi (k + 1) \<le> B powi j"
    using B by (simp add: power_int_increasing)
  with assms show False by linarith
qed

lemma ilog_unique:
  assumes "2 \<le> b" "of_nat b powi k \<le> x" "x < of_nat b powi (k + 1)"
  shows "ilog b x = k"
proof -
  have B: "(1::rat) < of_nat b" using assms(1) by simp
  then have "(0::rat) < of_nat b powi k" by (simp add: zero_less_power_int)
  with assms have x: "0 < x" by linarith
  note ib = ilog_bounds [OF assms(1) x]
  from power_int_sandwich_unique [OF B ib(1) assms(3)]
    power_int_sandwich_unique [OF B assms(2) ib(2)]
  show ?thesis by simp
qed

lemma ilog_mono:
  assumes "2 \<le> b" "0 < x" "x \<le> y"
  shows "ilog b x \<le> ilog b y"
proof -
  have B: "(1::rat) < of_nat b" using assms(1) by simp
  note ix = ilog_bounds [OF assms(1,2)]
  have "0 < y" using assms by simp
  note iy = ilog_bounds [OF assms(1) this]
  have "x < of_nat b powi (ilog b y + 1)" using iy(2) assms(3) by simp
  from power_int_sandwich_unique [OF B ix(1) this] show ?thesis .
qed


lemma round_sig_0 [simp]: "round_sig b p emin 0 = 0"
  by (simp add: round_sig_def)

lemma round_sig_minus: "round_sig b p emin (- x) = - round_sig b p emin x"
  by (simp add: round_sig_def Let_def round_half_even_minus)

lemma round_sig_unfold:
  assumes "x \<noteq> 0"
  shows "round_sig b p emin x =
           of_int (round_half_even (x / of_nat b powi (max (ilog b \<bar>x\<bar> - int p + 1) emin)))
             * of_nat b powi (max (ilog b \<bar>x\<bar> - int p + 1) emin)"
  using assms by (simp add: round_sig_def Let_def)

lemma round_half_even_nonneg: "0 \<le> x \<Longrightarrow> 0 \<le> round_half_even x"
  using round_half_even_mono [of 0 x] round_half_even_of_int [of 0] by simp

lemma round_sig_nonneg:
  assumes "2 \<le> b" "0 \<le> x"
  shows "0 \<le> round_sig b p emin x"
proof (cases "x = 0")
  case False
  define e where "e = max (ilog b \<bar>x\<bar> - int p + 1) emin"
  have s: "(0::rat) < of_nat b powi e" using assms(1) by (simp add: zero_less_power_int)
  then have "0 \<le> x / of_nat b powi e" using assms(2) by simp
  then have "0 \<le> round_half_even (x / of_nat b powi e)"
    by (rule round_half_even_nonneg)
  then show ?thesis
    using s by (simp add: round_sig_unfold [OF False] e_def [symmetric])
qed simp

lemma round_half_even_ge_int:
  assumes "of_int n \<le> x" shows "(of_int n :: rat) \<le> of_int (round_half_even x)"
proof -
  have "round_half_even (of_int n) \<le> round_half_even x"
    using assms by (rule round_half_even_mono)
  then show ?thesis by (simp only: round_half_even_of_int of_int_le_iff)
qed

lemma round_half_even_le_int:
  assumes "x \<le> of_int n" shows "(of_int (round_half_even x) :: rat) \<le> of_int n"
proof -
  have "round_half_even x \<le> round_half_even (of_int n)"
    using assms by (rule round_half_even_mono)
  then show ?thesis by (simp only: round_half_even_of_int of_int_le_iff)
qed

lemma power_int_nat_is_int:
  "(of_nat b :: rat) powi (int n) = of_int (int b ^ n)"
  by (simp add: power_int_def)

lemma round_sig_mono_pos:
  assumes b: "2 \<le> b" and p: "0 < p" and x: "0 < x" and xy: "x \<le> y"
  shows "round_sig b p emin x \<le> round_sig b p emin y"
proof -
  define B :: rat where "B = of_nat b"
  have B: "1 < B" "0 < B" "B \<noteq> 0" using b by (simp_all add: B_def)
  have y: "0 < y" using x xy by simp
  define ex where "ex = max (ilog b x - int p + 1) emin"
  define ey where "ey = max (ilog b y - int p + 1) emin"
  have rx: "round_sig b p emin x = of_int (round_half_even (x / B powi ex)) * B powi ex"
    using x round_sig_unfold [of x b p emin] by (simp add: ex_def B_def)
  have ry: "round_sig b p emin y = of_int (round_half_even (y / B powi ey)) * B powi ey"
    using y round_sig_unfold [of y b p emin] by (simp add: ey_def B_def)
  have sx: "0 < B powi ex" and sy: "0 < B powi ey"
    using B by (simp_all add: zero_less_power_int)
  have le: "ex \<le> ey"
    using ilog_mono [OF b x xy] by (simp add: ex_def ey_def)
  show ?thesis
  proof (cases "ex = ey")
    case True
    have "x / B powi ey \<le> y / B powi ey"
      using xy sy by (simp add: divide_right_mono)
    then have "round_half_even (x / B powi ey) \<le> round_half_even (y / B powi ey)"
      by (rule round_half_even_mono)
    then have "(of_int (round_half_even (x / B powi ey)) :: rat) \<le> of_int (round_half_even (y / B powi ey))"
      by (simp only: of_int_le_iff)
    then show ?thesis
      unfolding rx ry True using sy by (simp add: mult_right_mono)
  next
    case False
    with le have lt: "ex + 1 \<le> ey" by simp
    then have "emin < ey" by (simp add: ex_def)
    then have ey': "ey = ilog b y - int p + 1" by (simp add: ey_def)
    have exge: "ilog b x + 1 \<le> ex + int p" by (simp add: ex_def)
    have pm: "int p - 1 = int (p - 1)" using p by simp
    \<comment> \<open>the larger argument rounds to at least the bottom of its exponent range\<close>
    have "B powi (ey + (int p - 1)) \<le> y"
      using ilog_bounds(1) [OF b y] by (simp add: ey' B_def)
    then have "B powi (int p - 1) * B powi ey \<le> y"
      using B by (simp add: power_int_add mult.commute)
    then have "B powi (int (p - 1)) \<le> y / B powi ey"
      using sy by (simp add: pos_le_divide_eq pm)
    then have "of_int (int b ^ (p - 1)) \<le> y / B powi ey"
      by (simp only: B_def power_int_nat_is_int)
    then have "(of_int (int b ^ (p - 1)) :: rat) \<le> of_int (round_half_even (y / B powi ey))"
      by (rule round_half_even_ge_int)
    then have "B powi (int p - 1) \<le> of_int (round_half_even (y / B powi ey))"
      by (simp only: B_def power_int_nat_is_int pm)
    then have "B powi (int p - 1) * B powi ey \<le> round_sig b p emin y"
      unfolding ry using sy by (simp add: mult_right_mono)
    then have lowy: "B powi (ey + int p - 1) \<le> round_sig b p emin y"
      using B by (simp add: power_int_add [symmetric] algebra_simps)
    \<comment> \<open>the smaller one rounds to at most the top of its own\<close>
    have "x < B powi (ilog b x + 1)"
      using ilog_bounds(2) [OF b x] by (simp add: B_def)
    also have "\<dots> \<le> B powi (ex + int p)"
      using exge B by (simp add: power_int_increasing)
    finally have "x \<le> B powi (int p) * B powi ex"
      using B by (simp add: power_int_add mult.commute)
    then have "x / B powi ex \<le> B powi (int p)"
      using sx by (simp add: pos_divide_le_eq)
    then have "x / B powi ex \<le> of_int (int b ^ p)"
      by (simp only: B_def power_int_nat_is_int)
    then have "(of_int (round_half_even (x / B powi ex)) :: rat) \<le> of_int (int b ^ p)"
      by (rule round_half_even_le_int)
    then have "of_int (round_half_even (x / B powi ex)) \<le> B powi (int p)"
      by (simp only: B_def power_int_nat_is_int)
    then have "round_sig b p emin x \<le> B powi (int p) * B powi ex"
      unfolding rx using sx by (simp add: mult_right_mono)
    then have "round_sig b p emin x \<le> B powi (ex + int p)"
      using B by (simp add: power_int_add mult.commute)
    also have "\<dots> \<le> B powi (ey + int p - 1)"
      using lt B by (simp add: power_int_increasing)
    also note lowy
    finally show ?thesis .
  qed
qed

lemma round_sig_mono:
  assumes b: "2 \<le> b" and p: "0 < p" and xy: "x \<le> y"
  shows "round_sig b p emin x \<le> round_sig b p emin y"
proof -
  consider "0 < x" | "x \<le> 0" "0 \<le> y" | "y < 0" by linarith
  then show ?thesis
  proof cases
    case 1
    then show ?thesis using round_sig_mono_pos [OF b p _ xy] by simp
  next
    case 2
    have "0 \<le> round_sig b p emin (- x)" "0 \<le> round_sig b p emin y"
      using 2 b by (simp_all add: round_sig_nonneg)
    then show ?thesis by (simp add: round_sig_minus)
  next
    case 3
    then have "0 < - y" "- y \<le> - x" using xy by simp_all
    from round_sig_mono_pos [OF b p this]
    show ?thesis by (simp add: round_sig_minus)
  qed
qed


lemma divide_mult_cancel_rat: "s \<noteq> 0 \<Longrightarrow> x / s * s = (x::rat)"
  by simp

lemma round_sig_exact:
  assumes b: "2 \<le> b" and m: "\<bar>m\<bar> < int b ^ p" and e: "emin \<le> e"
  shows "round_sig b p emin (of_int m * of_nat b powi e) = of_int m * of_nat b powi e"
proof (cases "m = 0")
  case False
  define B :: rat where "B = of_nat b"
  have B: "1 < B" "0 < B" "B \<noteq> 0" using b by (simp_all add: B_def)
  define x where "x = of_int m * B powi e"
  have se: "0 < B powi e" using B by (simp add: zero_less_power_int)
  have x0: "x \<noteq> 0" using False se B by (simp add: x_def)
  have ax: "\<bar>x\<bar> = of_int \<bar>m\<bar> * B powi e"
    using se by (simp add: x_def abs_mult)
  have "(of_int \<bar>m\<bar> :: rat) < of_int (int b ^ p)"
    using m by (simp only: of_int_less_iff)
  then have "of_int \<bar>m\<bar> < B powi (int p)"
    by (simp only: B_def power_int_nat_is_int)
  then have "\<bar>x\<bar> < B powi (int p) * B powi e"
    unfolding ax using se by (simp add: mult_strict_right_mono)
  then have up: "\<bar>x\<bar> < B powi ((e + int p - 1) + 1)"
    using B by (simp add: power_int_add mult.commute)
  have "0 < \<bar>x\<bar>" using x0 by simp
  from ilog_bounds(1) [OF b this] have "B powi (ilog b \<bar>x\<bar>) \<le> \<bar>x\<bar>" by (simp add: B_def)
  from power_int_sandwich_unique [OF B(1) this up]
  have il: "ilog b \<bar>x\<bar> - int p + 1 \<le> e" by simp
  define E where "E = max (ilog b \<bar>x\<bar> - int p + 1) emin"
  have Ee: "E \<le> e" using il e by (simp add: E_def)
  have sE: "0 < B powi E" using B by (simp add: zero_less_power_int)
  have split: "B powi e = B powi (int (nat (e - E))) * B powi E"
    using B Ee by (simp add: power_int_add [symmetric])
  have sE0: "B powi E \<noteq> 0" using sE by (rule less_imp_neq [THEN not_sym])
  have "x / B powi E = of_int m * B powi (int (nat (e - E))) * B powi E / B powi E"
    unfolding x_def by (simp only: split mult.assoc)
  also have "\<dots> = of_int m * B powi (int (nat (e - E)))"
    using sE0 by (rule nonzero_mult_div_cancel_right)
  finally have "x / B powi E = of_int m * B powi (int (nat (e - E)))" .
  then have "x / B powi E = of_int m * B powi (int (nat (e - E)))" .
  also have "\<dots> = of_int (m * int b ^ nat (e - E))"
    by (simp only: B_def power_int_nat_is_int of_int_mult)
  finally have q: "x / B powi E = of_int (m * int b ^ nat (e - E))" .
  have "round_sig b p emin x = of_int (round_half_even (x / B powi E)) * B powi E"
    using round_sig_unfold [OF x0, of b p emin] by (simp add: E_def B_def)
  also have "\<dots> = x / B powi E * B powi E"
    by (simp only: q round_half_even_of_int)
  also have "\<dots> = x" using sE0 by (rule divide_mult_cancel_rat)
  finally show ?thesis by (simp add: x_def B_def)
qed simp

lemma round_sig_error:
  assumes b: "2 \<le> b" and x0: "x \<noteq> 0" and normal: "emin \<le> ilog b \<bar>x\<bar> - int p + 1"
  shows "\<bar>round_sig b p emin x - x\<bar> \<le> \<bar>x\<bar> * (of_nat b powi (1 - int p) / 2)"
proof -
  define B :: rat where "B = of_nat b"
  have B: "1 < B" "0 < B" "B \<noteq> 0" using b by (simp_all add: B_def)
  define E where "E = ilog b \<bar>x\<bar> - int p + 1"
  have Emax: "max (ilog b \<bar>x\<bar> - int p + 1) emin = E" using normal by (simp add: E_def)
  have sE: "0 < B powi E" using B by (simp add: zero_less_power_int)
  define r :: rat where "r = of_int (round_half_even (x / B powi E))"
  have rs: "round_sig b p emin x = r * B powi E"
    using round_sig_unfold [OF x0, of b p emin] by (simp add: Emax B_def r_def)
  have "x / B powi E - 1/2 \<le> r" "r \<le> x / B powi E + 1/2"
    unfolding r_def by (rule round_half_even_lower, rule round_half_even_upper)
  then have "\<bar>r - x / B powi E\<bar> \<le> 1/2" by linarith
  then have "\<bar>r - x / B powi E\<bar> * B powi E \<le> 1/2 * B powi E"
    using sE by (simp add: mult_right_mono)
  moreover have "\<bar>r - x / B powi E\<bar> * B powi E = \<bar>r * B powi E - x\<bar>"
  proof -
    have "\<bar>r - x / B powi E\<bar> * B powi E = \<bar>(r - x / B powi E) * B powi E\<bar>"
      using sE by (simp add: abs_mult)
    also have "(r - x / B powi E) * B powi E = r * B powi E - x"
      using sE B by (simp add: algebra_simps)
    finally show ?thesis .
  qed
  ultimately have err: "\<bar>round_sig b p emin x - x\<bar> \<le> B powi E / 2"
    by (simp add: rs)
  have "0 < \<bar>x\<bar>" using x0 by simp
  from ilog_bounds(1) [OF b this] have "B powi (ilog b \<bar>x\<bar>) \<le> \<bar>x\<bar>" by (simp add: B_def)
  then have "B powi (ilog b \<bar>x\<bar>) * B powi (1 - int p) \<le> \<bar>x\<bar> * B powi (1 - int p)"
    using B by (simp add: mult_right_mono zero_less_power_int less_imp_le)
  moreover have "B powi E = B powi (ilog b \<bar>x\<bar>) * B powi (1 - int p)"
  proof -
    have "E = ilog b \<bar>x\<bar> + (1 - int p)" by (simp add: E_def)
    then show ?thesis using B by (simp only: power_int_add [OF disjI1 [OF B(3)]])
  qed
  ultimately have "B powi E / 2 \<le> \<bar>x\<bar> * (B powi (1 - int p) / 2)" by simp
  with err show ?thesis by (simp add: B_def)
qed

section \<open>Floats and the decimal context\<close>

text \<open>
  Both roundings are monotone, keep the numbers they can represent, and change a number
  of the normal range by at most half a unit in its last place.
\<close>

lemma ilog_ge:
  assumes "2 \<le> b" "of_nat b powi k \<le> x"
  shows "k \<le> ilog b x"
proof -
  have B: "(1::rat) < of_nat b" using assms(1) by simp
  then have "(0::rat) < of_nat b powi k" by (simp add: zero_less_power_int)
  with assms(2) have "0 < x" by linarith
  from power_int_sandwich_unique [OF B assms(2) ilog_bounds(2) [OF assms(1) this]]
  show ?thesis .
qed

lemma py_float_0 [simp]: "py_float 0 = 0"
  by (simp add: py_float_def)

lemma py_float_minus: "py_float (- x) = - py_float x"
  by (simp add: py_float_def round_sig_minus)

lemma py_float_mono: "x \<le> y \<Longrightarrow> py_float x \<le> py_float y"
  unfolding py_float_def by (rule round_sig_mono) simp_all

lemma py_float_nonneg: "0 \<le> x \<Longrightarrow> 0 \<le> py_float x"
  using py_float_mono [of 0 x] by simp

lemma py_float_scaled_int:
  assumes "\<bar>m\<bar> < 2 ^ 53" "- 1074 \<le> e"
  shows "py_float (of_int m * 2 powi e) = of_int m * 2 powi e"
  using round_sig_exact [of 2 m 53 "- 1074" e] assms by (simp add: py_float_def)

lemma py_float_of_int:
  assumes "\<bar>m\<bar> < 2 ^ 53"
  shows "py_float (of_int m) = of_int m"
  using py_float_scaled_int [OF assms, of 0] by simp

lemma py_float_power_of_2:
  assumes "- 1074 \<le> e"
  shows "py_float (2 powi e) = 2 powi e"
  using py_float_scaled_int [of 1 e] assms by simp

lemma py_float_1 [simp]: "py_float 1 = 1"
  using py_float_of_int [of 1] by simp

lemma py_float_100 [simp]: "py_float 100 = 100"
  using py_float_of_int [of 100] by simp

lemma round_sig_error_above:
  assumes b: "2 \<le> b" and low: "of_nat b powi k \<le> \<bar>x\<bar>" and k: "emin \<le> k - int p + 1"
  shows "\<bar>round_sig b p emin x - x\<bar> \<le> \<bar>x\<bar> * (of_nat b powi (1 - int p) / 2)"
proof -
  have "(0::rat) < of_nat b powi k" using b by (simp add: zero_less_power_int)
  with low have x0: "x \<noteq> 0" by auto
  have "k \<le> ilog b \<bar>x\<bar>" using b low by (rule ilog_ge)
  with k have "emin \<le> ilog b \<bar>x\<bar> - int p + 1" by simp
  with b x0 show ?thesis by (rule round_sig_error)
qed

lemma half_ulp_binary64: "(of_nat 2 :: rat) powi (1 - int 53) / 2 = 1 / 2 ^ 53"
proof -
  have "(of_nat 2 :: rat) powi (1 - int 53) = 2 powi (- 52)" by simp
  also have "\<dots> = 1 / 2 ^ 52" by (simp add: power_int_minus field_simps)
  finally show ?thesis by simp
qed

lemma py_float_error:
  assumes "2 powi k \<le> \<bar>x\<bar>" "- 1022 \<le> k"
  shows "\<bar>py_float x - x\<bar> \<le> \<bar>x\<bar> / 2 ^ 53"
proof -
  have "(of_nat 2 :: rat) powi k \<le> \<bar>x\<bar>" using assms(1) by simp
  moreover have "- 1074 \<le> k - int 53 + 1" using assms(2) by simp
  ultimately have "\<bar>round_sig 2 53 (- 1074) x - x\<bar> \<le> \<bar>x\<bar> * (of_nat 2 powi (1 - int 53) / 2)"
    by (intro round_sig_error_above) simp_all
  then show ?thesis
    by (simp only: half_ulp_binary64 py_float_def) simp
qed

lemma decimal_context_0 [simp]: "decimal_context 0 = 0"
  by (simp add: decimal_context_def)

lemma decimal_context_mono: "x \<le> y \<Longrightarrow> decimal_context x \<le> decimal_context y"
  unfolding decimal_context_def by (rule round_sig_mono) simp_all

lemma decimal_context_scaled_int:
  assumes "\<bar>m\<bar> < 10 ^ 28" "- 1000026 \<le> e"
  shows "decimal_context (of_int m * 10 powi e) = of_int m * 10 powi e"
  using round_sig_exact [of 10 m 28 "- 1000026" e] assms by (simp add: decimal_context_def)

lemma decimal_context_of_int:
  assumes "\<bar>m\<bar> < 10 ^ 28"
  shows "decimal_context (of_int m) = of_int m"
  using decimal_context_scaled_int [OF assms, of 0] by simp

lemma decimal_context_cents:
  assumes "\<bar>m\<bar> < 10 ^ 28"
  shows "decimal_context (of_int m / 100) = of_int m / 100"
proof -
  have "(10::rat) powi (- 2) = 1 / 100" by (simp add: power_int_minus)
  then have "of_int m * (10::rat) powi (- 2) = of_int m / 100" by simp
  with decimal_context_scaled_int [OF assms, of "- 2"] show ?thesis by simp
qed

lemma half_ulp_decimal: "(of_nat 10 :: rat) powi (1 - int 28) / 2 = 1 / (2 * 10 ^ 27)"
proof -
  have "(of_nat 10 :: rat) powi (1 - int 28) = 10 powi (- 27)" by simp
  also have "\<dots> = 1 / 10 ^ 27" by (simp add: power_int_minus field_simps)
  finally show ?thesis by simp
qed

lemma decimal_context_error:
  assumes "10 powi k \<le> \<bar>x\<bar>" "- 999999 \<le> k"
  shows "\<bar>decimal_context x - x\<bar> \<le> \<bar>x\<bar> / (2 * 10 ^ 27)"
proof -
  have "(of_nat 10 :: rat) powi k \<le> \<bar>x\<bar>" using assms(1) by simp
  moreover have "- 1000026 \<le> k - int 28 + 1" using assms(2) by simp
  ultimately have "\<bar>round_sig 10 28 (- 1000026) x - x\<bar> \<le> \<bar>x\<bar> * (of_nat 10 powi (1 - int 28) / 2)"
    by (intro round_sig_error_above) simp_all
  then show ?thesis
    by (simp only: half_ulp_decimal decimal_context_def) simp
qed

section \<open>The category breakdown\<close>





lemma sorted_uminus_iff:
  fixes xs :: "rat list"
  shows "sorted (map uminus xs) \<longleftrightarrow> sorted_wrt (\<lambda>a b. b \<le> a) xs"
  by (induction xs) auto

lemma category_totals_alt:
  "category_totals rows =
     sort_key (\<lambda>p. - snd p) (map (\<lambda>c. (c, group_total rows c)) (remdups (map expense_category rows)))"
  by (simp add: category_totals_def case_prod_unfold)

lemma set_category_totals:
  "set (category_totals rows) = (\<lambda>c. (c, group_total rows c)) ` expense_category ` set rows"
  by (simp add: category_totals_alt)

lemma distinct_map_fst_insort_key:
  "distinct (map fst (insort_key f x xs)) = distinct (map fst (x # xs))"
  by (induction xs) (auto simp: set_insort_key)

lemma distinct_map_fst_sort_key:
  "distinct (map fst (sort_key f xs)) = distinct (map fst xs)"
  by (induction xs) (simp_all add: distinct_map_fst_insort_key)

lemma distinct_category_totals: "distinct (map fst (category_totals rows))"
  by (simp add: category_totals_alt distinct_map_fst_sort_key comp_def)

lemma sorted_category_totals:
  "sorted_wrt (\<lambda>a b. b \<le> a) (map snd (category_totals rows))"
proof -
  have "sorted (map (\<lambda>p. - snd p) (category_totals rows))"
    unfolding category_totals_alt by (rule sorted_sort_key)
  then have "sorted (map uminus (map snd (category_totals rows)))"
    by (simp add: comp_def)
  then show ?thesis by (simp only: sorted_uminus_iff)
qed


lemma category_label_cases:
  "(c \<in> fst ` set CATEGORY_CHOICES \<longrightarrow> (c, category_label c) \<in> set CATEGORY_CHOICES) \<and>
   (c \<notin> fst ` set CATEGORY_CHOICES \<longrightarrow> category_label c = c)"
proof -
  have d: "distinct (map fst CATEGORY_CHOICES)" by (simp add: CATEGORY_CHOICES_def)
  show ?thesis
  proof (cases "map_of CATEGORY_CHOICES c")
    case None
    then have "c \<notin> fst ` set CATEGORY_CHOICES" by (simp add: map_of_eq_None_iff)
    with None show ?thesis by (simp add: category_label_def)
  next
    case (Some l)
    then have "(c, l) \<in> set CATEGORY_CHOICES" by (rule map_of_SomeD)
    with Some show ?thesis by (force simp: category_label_def)
  qed
qed

text \<open>
  Claim C5. The breakdown has one entry for each category that occurs among the user's
  expenses and none for any other; an entry carries the sum of its category's amounts and
  the label of the fixed table, or the code itself when the table does not have it; the
  totals descend.
\<close>

theorem by_category_breakdown:
  "distinct (map item_category (by_category s u)) \<and>
   set (map item_category (by_category s u)) = expense_category ` set (expense_queryset s u) \<and>
   (\<forall>i \<in> set (by_category s u).
      item_total i =
        sum_list (map expense_amount
          (filter (\<lambda>r. expense_category r = item_category i) (expense_queryset s u))) \<and>
      (item_category i \<in> fst ` set CATEGORY_CHOICES \<longrightarrow>
         (item_category i, item_label i) \<in> set CATEGORY_CHOICES) \<and>
      (item_category i \<notin> fst ` set CATEGORY_CHOICES \<longrightarrow> item_label i = item_category i)) \<and>
   sorted_wrt (\<lambda>a b. b \<le> a) (map item_total (by_category s u))"
proof -
  define rows where "rows = expense_queryset s u"
  have cats: "map item_category (by_category s u) = map fst (category_totals rows)"
    and tots: "map item_total (by_category s u) = map snd (category_totals rows)"
    by (simp_all add: by_category_def rows_def case_prod_unfold comp_def)
  have 1: "distinct (map item_category (by_category s u))"
    unfolding cats by (rule distinct_category_totals)
  have 2: "set (map item_category (by_category s u)) = expense_category ` set rows"
    unfolding cats by (simp add: set_category_totals image_image)
  have 3: "item_total i = group_total rows (item_category i) \<and>
           item_label i = category_label (item_category i)"
    if "i \<in> set (by_category s u)" for i
    using that by (auto simp: by_category_def rows_def [symmetric] set_category_totals)
  have 4: "sorted_wrt (\<lambda>a b. b \<le> a) (map item_total (by_category s u))"
    unfolding tots by (rule sorted_category_totals)
  show ?thesis
    using 1 2 3 4 category_label_cases
    by (simp add: rows_def [symmetric] group_total_def)
qed

lemma by_category_example:
  "by_category example_store 1 =
     [\<lparr>item_category = ''rent'', item_label = ''Rent & Housing'', item_total = 800\<rparr>,
      \<lparr>item_category = ''pets'', item_label = ''pets'', item_total = 30\<rparr>,
      \<lparr>item_category = ''food'', item_label = ''Food & Dining'', item_total = 20\<rparr>]"
  by (simp add: example_store_def by_category_def category_totals_def group_total_def
      expense_queryset_def category_label_def CATEGORY_CHOICES_def)

theorem by_category_breakdown_witness:
  "by_category example_store 1 =
     [\<lparr>item_category = ''rent'', item_label = ''Rent & Housing'', item_total = 800\<rparr>,
      \<lparr>item_category = ''pets'', item_label = ''pets'', item_total = 30\<rparr>,
      \<lparr>item_category = ''food'', item_label = ''Food & Dining'', item_total = 20\<rparr>] \<and>
   distinct (map item_category (by_category example_store 1)) \<and>
   sorted_wrt (\<lambda>a b. b \<le> a) (map item_total (by_category example_store 1)) \<and>
   sum_list (map expense_amount
     (filter (\<lambda>r. expense_category r = ''food'') (expense_queryset example_store 1))) = 20"
proof -
  note t = by_category_breakdown [of example_store 1]
  let ?food = "\<lparr>item_category = ''food'', item_label = ''Food & Dining'', item_total = 20\<rparr>"
  have "?food \<in> set (by_category example_store 1)"
    unfolding by_category_example by simp
  with t have "item_total ?food =
      sum_list (map expense_amount
        (filter (\<lambda>r. expense_category r = item_category ?food) (expense_queryset example_store 1)))"
    by blast
  then have "sum_list (map expense_amount
     (filter (\<lambda>r. expense_category r = ''food'') (expense_queryset example_store 1))) = 20"
    by simp
  with t by_category_example show ?thesis by blast
qed

lemma or_zero_aggregate_sum [simp]: "or_zero (aggregate_sum xs) = sum_list xs"
  by (simp add: or_zero_def aggregate_sum_def)



section \<open>Reads are scoped to the requesting user\<close>

lemma filter_user_and:
  "filter (\<lambda>r. f r = u \<and> P r) xs = filter P (filter (\<lambda>r. f r = u) xs)"
  by simp

text \<open>
  Claim C10. What a user reads, in any of the views, is computed from the rows of that
  user alone: two stores that hold the same rows of the user give the same answers,
  whatever rows of other users they hold.
\<close>

theorem views_read_own_rows_only:
  assumes "agree_on_user u s s'"
  shows "income_queryset s u = income_queryset s' u \<and>
         income_monthly_total s u today = income_monthly_total s' u today \<and>
         expense_queryset s u = expense_queryset s' u \<and>
         expense_monthly_total s u today = expense_monthly_total s' u today \<and>
         by_category s u = by_category s' u \<and>
         goal_list s u today = goal_list s' u today \<and>
         dashboard_get s u today = dashboard_get s' u today"
proof -
  from assms have i: "income_queryset s u = income_queryset s' u"
    and e: "expense_queryset s u = expense_queryset s' u"
    and g: "goal_queryset s u = goal_queryset s' u"
    by (simp_all add: agree_on_user_def income_queryset_def expense_queryset_def goal_queryset_def)
  have im: "income_total_in_month s u y m = income_total_in_month s' u y m" for y m
    unfolding income_total_in_month_def filter_user_and
    by (simp only: i [unfolded income_queryset_def])
  have em: "expense_total_in_month s u y m = expense_total_in_month s' u y m" for y m
    unfolding expense_total_in_month_def filter_user_and
    by (simp only: e [unfolded expense_queryset_def])
  have "monthly_entry s u today k = monthly_entry s' u today k" for k
    by (simp add: monthly_entry_def entry_of_month_def im em split: option.splits)
  then have ms: "monthly_series s u today = monthly_series s' u today"
    by (simp add: monthly_series_def)
  have d: "dashboard_get s u today = dashboard_get s' u today"
    by (simp add: dashboard_get_def ms i e g im em all_time_income_def all_time_expenses_def
        split: option.splits)
  show ?thesis
    using d by (simp add: i e g income_monthly_total_def expense_monthly_total_def
        by_category_def goal_list_def)
qed

lemma example_stores_agree: "agree_on_user 1 example_store example_store_2"
  by (simp add: agree_on_user_def example_store_def example_store_2_def)

lemma example_stores_differ: "incomes example_store \<noteq> incomes example_store_2"
  by (simp add: example_store_def example_store_2_def)

theorem views_read_own_rows_only_witness:
  "agree_on_user 1 example_store example_store_2 \<and>
   incomes example_store \<noteq> incomes example_store_2 \<and>
   by_category example_store 1 = by_category example_store_2 1 \<and>
   dashboard_get example_store 1 \<lparr>year = 2024, month = 1, day = 15\<rparr>
     = dashboard_get example_store_2 1 \<lparr>year = 2024, month = 1, day = 15\<rparr>"
  using views_read_own_rows_only [OF example_stores_agree, of "\<lparr>year = 2024, month = 1, day = 15\<rparr>"]
    example_stores_agree example_stores_differ
  by blast

section \<open>Calendar months\<close>

text \<open>
  Stepping back to the first day of the month before, \<open>i\<close> times, subtracts \<open>i\<close> from the
  number of the month; the subtraction of a day fails only before the year 1.
\<close>

lemma div_mod_twelve:
  fixes y j :: nat
  assumes "j < 12"
  shows "(y * 12 + j) div 12 = y" and "(y * 12 + j) mod 12 = j"
  using assms by simp_all

lemma first_of_month_eq:
  assumes "j < 12"
  shows "first_of_month (y * 12 + j) = \<lparr>year = y, month = j + 1, day = 1\<rparr>"
  using assms by (simp add: first_of_month_def)

lemma month_index_first_of_month [simp]: "month_index (first_of_month k) = k"
  by (simp add: month_index_def first_of_month_def)

lemma replace_day_1_first_of_month [simp]: "replace_day_1 (first_of_month k) = first_of_month k"
  by (simp add: replace_day_1_def first_of_month_def)

lemma replace_day_1_today:
  assumes "1 \<le> month d" "month d \<le> 12"
  shows "replace_day_1 d = first_of_month (month_index d)"
proof -
  define j where "j = month d - 1"
  have j: "month d = j + 1" "j < 12" using assms by (simp_all add: j_def)
  have "month_index d = year d * 12 + j" by (simp add: month_index_def j)
  moreover have "replace_day_1 d = \<lparr>year = year d, month = j + 1, day = 1\<rparr>"
    using j(1) by (cases d) (simp add: replace_day_1_def)
  ultimately show ?thesis
    by (simp add: first_of_month_eq [OF j(2)])
qed


lemma first_of_previous_month:
  assumes "13 \<le> k"
  shows "map_option replace_day_1 (minus_one_day (first_of_month k)) = Some (first_of_month (k - 1))"
proof -
  define y j where "y = k div 12" and "j = k mod 12"
  have k: "k = y * 12 + j" and j: "j < 12" by (simp_all add: y_def j_def)
  have f: "first_of_month k = \<lparr>year = y, month = j + 1, day = 1\<rparr>"
    unfolding k by (rule first_of_month_eq [OF j])
  show ?thesis
  proof (cases j)
    case 0
    with k assms have y: "2 \<le> y" by simp
    define z where "z = y - 1"
    have z: "y = z + 1" "1 \<le> z" using y by (simp_all add: z_def)
    have "k - 1 = z * 12 + 11" using k 0 z by simp
    then have "first_of_month (k - 1) = \<lparr>year = z, month = 12, day = 1\<rparr>"
      using first_of_month_eq [of 11 z] by simp
    then show ?thesis
      using 0 z by (simp add: f minus_one_day_def replace_day_1_def)
  next
    case (Suc i)
    then have i: "i < 12" using j by simp
    have "k - 1 = y * 12 + i" using k Suc by simp
    then have "first_of_month (k - 1) = \<lparr>year = y, month = i + 1, day = 1\<rparr>"
      using first_of_month_eq [OF i, of y] by simp
    then show ?thesis
      using Suc by (simp add: f minus_one_day_def replace_day_1_def)
  qed
qed


lemma months_back_first_of_month:
  assumes "12 + i \<le> k"
  shows "months_back i (first_of_month k) = Some (first_of_month (k - i))"
  using assms
proof (induction i arbitrary: k)
  case 0
  show ?case by simp
next
  case (Suc i)
  then have "13 \<le> k" by simp
  from first_of_previous_month [OF this]
  obtain p where p: "minus_one_day (first_of_month k) = Some p"
    "replace_day_1 p = first_of_month (k - 1)"
    by auto
  have "12 + i \<le> k - 1" using Suc.prems by simp
  from Suc.IH [OF this] show ?case by (simp add: p)
qed

lemma months_back_today:
  assumes "valid_date today" "2 \<le> year today" "i \<le> 5"
  shows "months_back i (replace_day_1 today) = Some (first_of_month (month_index today - i))"
proof -
  have m: "1 \<le> month today" "month today \<le> 12" using assms(1) by (simp_all add: valid_date_def)
  have "12 + i \<le> month_index today" using assms by (simp add: month_index_def)
  then show ?thesis
    by (simp add: replace_day_1_today [OF m] months_back_first_of_month)
qed

lemma digit_is_digit: "k < 10 \<Longrightarrow> is_digit (''0123456789'' ! k)"
  unfolding is_digit_def by (rule nth_mem) simp

lemma str_of_nat_four_digits:
  assumes "1000 \<le> n" "n \<le> 9999"
  shows "length (str_of_nat n) = 4" and "list_all is_digit (str_of_nat n)"
proof -
  have a: "\<not> n < 10" "\<not> n div 10 < 10" "\<not> n div 10 div 10 < 10" "n div 10 div 10 div 10 < 10"
    using assms by (simp_all add: div_mult2_eq [symmetric])
  have s: "str_of_nat n =
      [''0123456789'' ! (n div 10 div 10 div 10), ''0123456789'' ! (n div 10 div 10 mod 10),
       ''0123456789'' ! (n div 10 mod 10), ''0123456789'' ! (n mod 10)]"
    using a
    by (simp add: str_of_nat.simps [of n] str_of_nat.simps [of "n div 10"]
        str_of_nat.simps [of "n div 10 div 10"] str_of_nat.simps [of "n div 10 div 10 div 10"])
  show "length (str_of_nat n) = 4" by (simp add: s)
  show "list_all is_digit (str_of_nat n)"
    using a(4) by (simp add: s digit_is_digit)
qed

section \<open>The six months of the dashboard\<close>

lemma monthly_series_eq:
  assumes "valid_date today" "2 \<le> year today"
  shows "monthly_series s u today =
           Some (map (\<lambda>i. entry_of_month s u (first_of_month (month_index today - i)))
                     [5, 4, 3, 2, 1, 0])"
proof -
  have e: "monthly_entry s u today i
             = Some (entry_of_month s u (first_of_month (month_index today - i)))"
    if "i \<le> 5" for i
    by (simp add: monthly_entry_def months_back_today [OF assms that])
  have "map (monthly_entry s u today) [5, 4, 3, 2, 1, 0]
          = map (\<lambda>i. Some (entry_of_month s u (first_of_month (month_index today - i))))
                [5, 4, 3, 2, 1, 0]"
    by (rule map_cong [OF refl]) (auto intro: e)
  then show ?thesis
    by (simp add: monthly_series_def)
qed

lemma entry_of_first_of_month:
  "entry_of_month s u (first_of_month k) =
     \<lparr>entry_month = month_abbr (k mod 12 + 1) @ '' '' @ str_of_nat (k div 12),
      entry_income = py_float (sum_list (map income_amount
        (filter (\<lambda>r. income_user r = u \<and> year (income_date r) = k div 12 \<and>
                      month (income_date r) = k mod 12 + 1) (incomes s)))),
      entry_expenses = py_float (sum_list (map expense_amount
        (filter (\<lambda>r. expense_user r = u \<and> year (expense_date r) = k div 12 \<and>
                      month (expense_date r) = k mod 12 + 1) (expenses s))))\<rparr>"
  by (simp add: entry_of_month_def first_of_month_def strftime_b_Y_def
      income_total_in_month_def expense_total_in_month_def in_month_def)

text \<open>
  Claim C2. For a date of the year 1001 or later the series has six entries, for the six
  calendar months that end with the month of the date, oldest first: with the months
  numbered \<open>12 * year + (month - 1)\<close>, the entries are those of the numbers \<open>k - 5\<close> to \<open>k\<close>
  of the date's month \<open>k\<close>, so a year boundary is crossed as the quotient by 12 changes.
  An entry has the label of its month, the abbreviated name and the four digits of the
  year, and the float of the user's income and of the user's expenses of that month; the
  sum of no amounts is 0. Before the year 1001 the label of a year has fewer than four
  digits, and in the first five months of the year 1 the date arithmetic leaves the range
  of dates; the request date of a running system is far from both.
\<close>

theorem monthly_data_six_months:
  assumes "valid_date today" "1001 \<le> year today"
  shows "\<exists>d. dashboard_get s u today = Some d \<and>
           length (monthly_data d) = 6 \<and>
           monthly_data d =
             map (\<lambda>k.
               \<lparr>entry_month = month_abbr (k mod 12 + 1) @ '' '' @ str_of_nat (k div 12),
                entry_income = py_float (sum_list (map income_amount
                  (filter (\<lambda>r. income_user r = u \<and> year (income_date r) = k div 12 \<and>
                                month (income_date r) = k mod 12 + 1) (incomes s)))),
                entry_expenses = py_float (sum_list (map expense_amount
                  (filter (\<lambda>r. expense_user r = u \<and> year (expense_date r) = k div 12 \<and>
                                month (expense_date r) = k mod 12 + 1) (expenses s))))\<rparr>)
               [month_index today - 5, month_index today - 4, month_index today - 3,
                month_index today - 2, month_index today - 1, month_index today] \<and>
           month_index today div 12 = year today \<and>
           month_index today mod 12 + 1 = month today \<and>
           (\<forall>k \<in> {month_index today - 5 .. month_index today}.
              length (str_of_nat (k div 12)) = 4 \<and> list_all is_digit (str_of_nat (k div 12))) \<and>
           py_float (sum_list (map income_amount [])) = 0 \<and>
           py_float (sum_list (map expense_amount [])) = 0"
proof -
  have y2: "2 \<le> year today" using assms(2) by simp
  have m: "1 \<le> month today" "month today \<le> 12" "year today \<le> 9999"
    using assms(1) by (simp_all add: valid_date_def)
  define j where "j = month today - 1"
  have j: "month today = j + 1" "j < 12" using m by (simp_all add: j_def)
  have K: "month_index today = year today * 12 + j" by (simp add: month_index_def j)
  have ym: "month_index today div 12 = year today" "month_index today mod 12 + 1 = month today"
    using j by (simp_all add: K)
  have digits: "length (str_of_nat (k div 12)) = 4 \<and> list_all is_digit (str_of_nat (k div 12))"
    if "k \<in> {month_index today - 5 .. month_index today}" for k
  proof -
    from that have "year today * 12 + j - 5 \<le> k" "k \<le> year today * 12 + j"
      by (simp_all add: K)
    then have "1000 * 12 \<le> k" "k < 10000 * 12" using assms(2) m(3) j(2) by arith+
    then have "1000 \<le> k div 12" "k div 12 \<le> 9999"
      by arith+
    then show ?thesis using str_of_nat_four_digits by simp
  qed
  obtain series where series: "monthly_series s u today = Some series"
    "series = map (\<lambda>i. entry_of_month s u (first_of_month (month_index today - i)))
                     [5, 4, 3, 2, 1, 0]"
    using monthly_series_eq [OF assms(1) y2] by simp
  then obtain d where d: "dashboard_get s u today = Some d" "monthly_data d = series"
    by (simp add: dashboard_get_def)
  show ?thesis
    using d digits ym by (simp add: series(2) entry_of_first_of_month)
qed

lemma str_of_nat_2023: "str_of_nat 2023 = ''2023''" by code_simp
lemma str_of_nat_2024: "str_of_nat 2024 = ''2024''" by code_simp

lemma py_float_examples:
  "py_float (15 / 2) = 15 / 2" "py_float (1801 / 4) = 1801 / 4" "py_float 30 = 30"
  "py_float 3000 = 3000" "py_float (1625 / 2) = 1625 / 2"
  by code_simp+

lemma example_date_valid: "valid_date \<lparr>year = 2024, month = 1, day = 15\<rparr>"
  by (simp add: valid_date_def days_in_month_def)

theorem monthly_data_six_months_witness:
  "valid_date \<lparr>year = 2024, month = 1, day = 15\<rparr> \<and>
   1001 \<le> year \<lparr>year = 2024, month = 1, day = 15\<rparr> \<and>
   map_option monthly_data (dashboard_get example_store 1 \<lparr>year = 2024, month = 1, day = 15\<rparr>) =
     Some [\<lparr>entry_month = ''Aug 2023'', entry_income = 0, entry_expenses = 0\<rparr>,
           \<lparr>entry_month = ''Sep 2023'', entry_income = 0, entry_expenses = 0\<rparr>,
           \<lparr>entry_month = ''Oct 2023'', entry_income = 0, entry_expenses = 0\<rparr>,
           \<lparr>entry_month = ''Nov 2023'', entry_income = 0, entry_expenses = 15 / 2\<rparr>,
           \<lparr>entry_month = ''Dec 2023'', entry_income = 1801 / 4, entry_expenses = 30\<rparr>,
           \<lparr>entry_month = ''Jan 2024'', entry_income = 3000, entry_expenses = 1625 / 2\<rparr>]"
proof -
  have y: "1001 \<le> year \<lparr>year = 2024, month = 1, day = 15\<rparr>" by simp
  have k: "month_index \<lparr>year = 2024, month = 1, day = 15\<rparr> = 24288"
    by (simp add: month_index_def)
  from monthly_data_six_months [OF example_date_valid y, of example_store 1]
  obtain d where d: "dashboard_get example_store 1 \<lparr>year = 2024, month = 1, day = 15\<rparr> = Some d"
    and md: "monthly_data d =
             map (\<lambda>k.
               \<lparr>entry_month = month_abbr (k mod 12 + 1) @ '' '' @ str_of_nat (k div 12),
                entry_income = py_float (sum_list (map income_amount
                  (filter (\<lambda>r. income_user r = 1 \<and> year (income_date r) = k div 12 \<and>
                                month (income_date r) = k mod 12 + 1) (incomes example_store)))),
                entry_expenses = py_float (sum_list (map expense_amount
                  (filter (\<lambda>r. expense_user r = 1 \<and> year (expense_date r) = k div 12 \<and>
                                month (expense_date r) = k mod 12 + 1) (expenses example_store))))\<rparr>)
               [24288 - 5, 24288 - 4, 24288 - 3, 24288 - 2, 24288 - 1, 24288]"
    unfolding k by blast
  have "monthly_data d =
     [\<lparr>entry_month = ''Aug 2023'', entry_income = 0, entry_expenses = 0\<rparr>,
           \<lparr>entry_month = ''Sep 2023'', entry_income = 0, entry_expenses = 0\<rparr>,
           \<lparr>entry_month = ''Oct 2023'', entry_income = 0, entry_expenses = 0\<rparr>,
           \<lparr>entry_month = ''Nov 2023'', entry_income = 0, entry_expenses = 15 / 2\<rparr>,
           \<lparr>entry_month = ''Dec 2023'', entry_income = 1801 / 4, entry_expenses = 30\<rparr>,
           \<lparr>entry_month = ''Jan 2024'', entry_income = 3000, entry_expenses = 1625 / 2\<rparr>]"
    unfolding md
    by (simp add: example_store_def month_abbr_def str_of_nat_2023 str_of_nat_2024
        py_float_examples)
  with d example_date_valid y show ?thesis by simp
qed

section \<open>Adding funds to a goal\<close>

lemma positive_amount_Infinity: "positive_amount (JString ''Infinity'') = Some (Infinity False)"
  by code_simp

text \<open>
  Claim C3, at the amount \<^verbatim>\<open>"Infinity"\<close>. The claim has every amount that is not a positive
  number answered with a validation error. \<^verbatim>\<open>Decimal\<close> reads the string as the positive
  infinity, the test \<^verbatim>\<open>amount <= 0\<close> is false and raises nothing, so the request passes
  validation: the answer is not the \<^verbatim>\<open>400\<close> of the two validation branches, and
  \<^verbatim>\<open>goal.save()\<close> is reached with an infinite \<^verbatim>\<open>current_amount\<close>.
\<close>

theorem add_funds_Infinity_not_rejected:
  "add_funds
     \<lparr>incomes = [], expenses = [],
      savings_goals =
        [\<lparr>goal_id = 1, goal_user = 1, goal_name = ''trip'', target_amount = 1000,
          current_amount = 0, deadline = \<lparr>year = 2024, month = 1, day = 11\<rparr>,
          created_at = \<lparr>year = 2024, month = 1, day = 1\<rparr>\<rparr>]\<rparr>
     1 \<lparr>year = 2024, month = 1, day = 6\<rparr> 1 (Some (JString ''Infinity''))
   = (Save_not_finite (Infinity False),
      \<lparr>incomes = [], expenses = [],
       savings_goals =
         [\<lparr>goal_id = 1, goal_user = 1, goal_name = ''trip'', target_amount = 1000,
           current_amount = 0, deadline = \<lparr>year = 2024, month = 1, day = 11\<rparr>,
           created_at = \<lparr>year = 2024, month = 1, day = 1\<rparr>\<rparr>]\<rparr>)"
  by (simp add: add_funds_def get_object_def goal_queryset_def falsy_def
      positive_amount_Infinity add_amount_def)

end
